theory Spec2Isabelle
  imports Main "HOL-Library.List_Lexorder" "HOL-Library.Char_ord" "HOL-Library.Product_Lexorder"
begin

section \<open>Runner types (src/runner/types.ts)\<close>

text \<open>
  The statuses "queued", "running", "done", "failed" and "paused", and the three kinds of
  recurrence rule; the constructors are capitalised.
\<close>

datatype TaskStatus = Queued | Running | Done | Failed | Paused

datatype RecurrenceRule = Once | Every int | Cron string "string option"

record TaskPayload =
  goal :: string
  url :: "string option"
  params :: "(string \<times> string) list option"
  constraints :: "string list option"

record RunStep =
  step_index :: nat
  step_description :: string
  step_result :: string
  step_timestampMs :: int

record TaskRun =
  run_id :: string
  run_taskId :: string
  run_agentId :: string
  run_startedAt :: string
  run_finishedAt :: "string option"
  run_steps :: "RunStep list"
  run_tokensEstimate :: "int option"
  run_error :: "string option"

text \<open>
  \<open>WorkingMemory.context\<close> (a free-form scratchpad) is never written by the code modelled
  here and is left out.
\<close>

record WorkingMemory =
  wm_goal :: "string option"
  wm_currentPlan :: "string list option"
  wm_currentStepIndex :: "nat option"
  wm_lastPageStateHash :: "string option"

record AgentState =
  as_agentId :: string
  as_currentTaskId :: "string option"
  as_lastHeartbeatAt :: "string option"
  as_workingMemory :: "WorkingMemory option"

text \<open>
  One record serves for a row of the \<open>tasks\<close> table and for the \<open>Task\<close> object built
  from it. Timestamps are ISO-8601 text, as the table stores them; SQLite compares TEXT
  bytewise, which is the lexicographic order on \<open>string\<close> used here.
\<close>

record Task =
  task_id :: string
  agent_id :: string
  status :: TaskStatus
  priority :: int
  payload :: TaskPayload
  recurrence :: "RecurrenceRule option"
  next_run_at :: "string option"
  status_reason :: "string option"
  created_at :: string
  updated_at :: string

section \<open>TaskQueue (src/runner/TaskQueue.ts)\<close>

definition STALE_RUNNING_MS :: int where
  "STALE_RUNNING_MS = 5 * 60 * 1000"

text \<open>
  \<open>(row.x as string) || undefined\<close>: SQL NULL and the empty string both read as absent.
\<close>

definition or_undefined :: "string option \<Rightarrow> string option" where
  "or_undefined v = (case v of None \<Rightarrow> None | Some s \<Rightarrow> if s = [] then None else Some s)"

definition rowToTask :: "Task \<Rightarrow> Task" where
  "rowToTask row = row\<lparr>next_run_at := or_undefined (next_run_at row),
                         status_reason := or_undefined (status_reason row)\<rparr>"

text \<open>
  The WHERE clause of \<open>claimNext\<close>:
  \<open>agent_id = ? AND status = 'queued' AND (next_run_at IS NULL OR next_run_at <= ?)\<close>.
\<close>

definition claimable :: "string \<Rightarrow> string \<Rightarrow> Task \<Rightarrow> bool" where
  "claimable agentId now t =
     (agent_id t = agentId \<and> status t = Queued \<and>
      (case next_run_at t of None \<Rightarrow> True | Some n \<Rightarrow> n \<le> now))"

text \<open>
  \<open>SELECT ... ORDER BY priority ASC, created_at ASC LIMIT 1\<close>: the first row of the
  matching rows sorted by the pair (priority, created_at). Which of several rows that
  agree on both columns SQLite returns is not specified; the stable sort takes the first
  of them in table order, and no property below depends on that choice.
\<close>

definition select_next :: "string \<Rightarrow> string \<Rightarrow> Task list \<Rightarrow> Task option" where
  "select_next agentId now tasks =
     (case sort_key (\<lambda>t. (priority t, created_at t)) (filter (claimable agentId now) tasks) of
        [] \<Rightarrow> None
      | row # _ \<Rightarrow> Some row)"

definition claimNext :: "string \<Rightarrow> string \<Rightarrow> Task list \<Rightarrow> Task option \<times> Task list" where
  "claimNext agentId now tasks =
     (case select_next agentId now tasks of
        None \<Rightarrow> (None, tasks)
      | Some row \<Rightarrow>
          (Some (rowToTask (row\<lparr>status := Running\<rparr>)),
           map (\<lambda>t. if task_id t = task_id row
                    then t\<lparr>status := Running, updated_at := now\<rparr> else t) tasks))"

text \<open>
  The startup scan at the end of \<open>initialize\<close>. \<open>Date.now()\<close> is read twice, first for the
  threshold (\<open>now0\<close>) and then for the new \<open>updated_at\<close> (\<open>now1\<close>);
  \<open>Date.prototype.toISOString\<close> is a parameter. The tables are created only if absent, so
  on an existing store the scan is all that \<open>initialize\<close> changes.
\<close>

definition initialize :: "(int \<Rightarrow> string) \<Rightarrow> int \<Rightarrow> int \<Rightarrow> Task list \<Rightarrow> Task list" where
  "initialize toISOString now0 now1 tasks =
     (let staleThreshold = toISOString (now0 - STALE_RUNNING_MS) in
      map (\<lambda>t. if status t = Running \<and> updated_at t < staleThreshold
               then t\<lparr>status := Queued,
                      status_reason := Some ''reset after stale run'',
                      updated_at := toISOString now1\<rparr>
               else t) tasks)"

definition enqueue ::
  "string \<Rightarrow> string \<Rightarrow> string \<Rightarrow> TaskPayload \<Rightarrow> int option \<Rightarrow> RecurrenceRule option \<Rightarrow>
   string option \<Rightarrow> Task list \<Rightarrow> Task \<times> Task list" where
  "enqueue uuid now agentId pl prio rec nextRunAt tasks =
     (let task = \<lparr>task_id = uuid, agent_id = agentId, status = Queued,
                   priority = (case prio of None \<Rightarrow> 3 | Some p \<Rightarrow> p),
                   payload = pl, recurrence = rec, next_run_at = nextRunAt,
                   status_reason = None, created_at = now, updated_at = now\<rparr>
      in (task, tasks @ [task]))"

definition updateStatus ::
  "string \<Rightarrow> TaskStatus \<Rightarrow> string option \<Rightarrow> string \<Rightarrow> Task list \<Rightarrow> Task list" where
  "updateStatus taskId st reason now tasks =
     map (\<lambda>t. if task_id t = taskId
              then t\<lparr>status := st, status_reason := reason, updated_at := now\<rparr>
              else t) tasks"

fun nextRunFor :: "(int \<Rightarrow> string) \<Rightarrow> int \<Rightarrow> RecurrenceRule \<Rightarrow> string option" where
  "nextRunFor toISOString nowMs Once = None"
| "nextRunFor toISOString nowMs (Every intervalMs) = Some (toISOString (nowMs + intervalMs))"
| "nextRunFor toISOString nowMs (Cron expr tz) = None"

definition requeueRecurring ::
  "(int \<Rightarrow> string) \<Rightarrow> int \<Rightarrow> string \<Rightarrow> Task \<Rightarrow> Task list \<Rightarrow> Task list" where
  "requeueRecurring toISOString nowMs now task tasks =
     (case recurrence task of
        None \<Rightarrow> tasks
      | Some Once \<Rightarrow> tasks
      | Some rule \<Rightarrow>
          map (\<lambda>t. if task_id t = task_id task
                   then t\<lparr>status := Queued,
                          next_run_at := nextRunFor toISOString nowMs rule,
                          status_reason := None,
                          updated_at := now\<rparr>
                   else t) tasks)"

text \<open>\<open>INSERT OR REPLACE\<close> on the primary key \<open>id\<close> of \<open>task_runs\<close>.\<close>

definition saveTaskRun :: "TaskRun \<Rightarrow> TaskRun list \<Rightarrow> TaskRun list" where
  "saveTaskRun run runs = filter (\<lambda>r. run_id r \<noteq> run_id run) runs @ [run]"

text \<open>
  The \<open>agent_state\<close> table has one row per \<open>agent_id\<close> (its primary key) and is a map.
\<close>

definition getAgentState :: "string \<Rightarrow> (string \<rightharpoonup> AgentState) \<Rightarrow> AgentState" where
  "getAgentState agentId tbl =
     (case tbl agentId of
        None \<Rightarrow> \<lparr>as_agentId = agentId, as_currentTaskId = None,
                  as_lastHeartbeatAt = None, as_workingMemory = None\<rparr>
      | Some row \<Rightarrow> \<lparr>as_agentId = agentId,
                      as_currentTaskId = or_undefined (as_currentTaskId row),
                      as_lastHeartbeatAt = or_undefined (as_lastHeartbeatAt row),
                      as_workingMemory = as_workingMemory row\<rparr>)"

definition saveAgentState :: "AgentState \<Rightarrow> (string \<rightharpoonup> AgentState) \<Rightarrow> (string \<rightharpoonup> AgentState)" where
  "saveAgentState st tbl = tbl(as_agentId st \<mapsto> st)"

definition listTasks :: "string \<Rightarrow> TaskStatus option \<Rightarrow> Task list \<Rightarrow> Task list" where
  "listTasks agentId st tasks =
     map rowToTask
       (sort_key (\<lambda>t. (priority t, created_at t))
          (filter (\<lambda>t. agent_id t = agentId \<and> (case st of None \<Rightarrow> True | Some s \<Rightarrow> status t = s)) tasks))"


section \<open>JavaScript strings\<close>



fun starts_with :: "string \<Rightarrow> string \<Rightarrow> bool" where
  "starts_with s [] = True"
| "starts_with [] (p # ps) = False"
| "starts_with (c # cs) (p # ps) = (c = p \<and> starts_with cs ps)"

fun str_includes :: "string \<Rightarrow> string \<Rightarrow> bool" where
  "str_includes [] p = (p = [])"
| "str_includes (c # cs) p = (starts_with (c # cs) p \<or> str_includes cs p)"

definition digit_char :: "nat \<Rightarrow> char" where
  "digit_char d = ''0123456789'' ! d"

fun string_of_nat :: "nat \<Rightarrow> string" where
  "string_of_nat n =
     (if n < 10 then [digit_char n] else string_of_nat (n div 10) @ [digit_char (n mod 10)])"

declare string_of_nat.simps [simp del]

section \<open>LLM router (src/llm/types.ts, src/llm/LLMRouter.ts)\<close>

datatype LLMCapability = Reasoning | StatusPing | Embeddings

text \<open>
  A provider is the string the code compares: the priority list read from the environment
  is cast, not checked, so it may name a provider that has no client.
\<close>

record KeyHealth =
  kh_provider :: string
  kh_key :: string
  kh_cooldownUntil :: "int option"
  kh_disabled :: "bool option"
  kh_lastError :: "string option"

record LLMResponse =
  resp_text :: string
  resp_provider :: string
  resp_model :: string
  resp_usage :: "(int \<times> int) option"



definition RATE_LIMIT_COOLDOWN_MS :: int where
  "RATE_LIMIT_COOLDOWN_MS = 60000"










text \<open>\<open>find\<close> followed by a mutation of the entry found: the first match is updated in place.\<close>

fun update_first :: "('a \<Rightarrow> bool) \<Rightarrow> ('a \<Rightarrow> 'a) \<Rightarrow> 'a list \<Rightarrow> 'a list" where
  "update_first P f [] = []"
| "update_first P f (x # xs) = (if P x then f x # xs else x # update_first P f xs)"

definition is_entry :: "string \<Rightarrow> string \<Rightarrow> KeyHealth \<Rightarrow> bool" where
  "is_entry p key k = (kh_provider k = p \<and> kh_key k = key)"

definition markRateLimit :: "int \<Rightarrow> string \<Rightarrow> string \<Rightarrow> KeyHealth list \<Rightarrow> KeyHealth list" where
  "markRateLimit now p key kh =
     update_first (is_entry p key)
       (\<lambda>e. e\<lparr>kh_cooldownUntil := Some (now + RATE_LIMIT_COOLDOWN_MS),
               kh_lastError := Some ''rate-limited''\<rparr>) kh"
















section \<open>Page state (src/page/types.ts)\<close>

text \<open>
  Of a \<open>PageState\<close> the runner reads the alerts and the hash, and the title, page type and
  elements for the prompt. An alert type is the string the runner compares and prints.
\<close>

record PageAlert =
  alert_type :: string
  alert_text :: string

record PageState =
  ps_title :: string
  ps_page_type :: string
  ps_elements :: "(string \<times> string) list"
  ps_alerts :: "PageAlert list"
  ps_hash :: string

section \<open>Agent runner (src/runner/AgentRunner.ts)\<close>

definition MAX_STEPS_PER_RUN :: nat where
  "MAX_STEPS_PER_RUN = 20"

definition MAX_CONSECUTIVE_FAILURES :: nat where
  "MAX_CONSECUTIVE_FAILURES = 3"

text \<open>
  The three tables of the task queue's database. The operations of the task queue are
  taken to succeed: an error of the database itself is outside the model.
\<close>

record Db =
  db_tasks :: "Task list"
  db_task_runs :: "TaskRun list"
  db_agent_state :: "string \<rightharpoonup> AgentState"

text \<open>
  The world of one \<open>executeTask\<close> call. Every read of the clock is an input (milliseconds;
  \<open>re_toISO\<close> is \<open>toISOString\<close>), and so is every answer of a collaborator: the memory
  search (\<open>Inl\<close>: it throws), the router's answer to the planning request and to the request
  of step \<open>i\<close> (\<open>Inl\<close>: it throws, with the message), \<open>JSON.parse\<close> (\<open>None\<close>: it throws; the
  result is cast to \<open>string[]\<close>), the optional \<open>getPageState\<close> dependency and what it returns
  in step \<open>i\<close> (\<open>None\<close>: it throws), the memory store (\<open>Some\<close>: it throws), and the value of
  the \<open>running\<close> flag when step \<open>i\<close> starts. The prompts are not modelled, since the answers
  are inputs. \<open>maybePostStatus\<close> and \<open>postStatus\<close> are left out: they call the router and
  the activity feed, catch every error, and touch only \<open>lastStatusAt\<close>.
\<close>

record RunnerEnv =
  re_runId :: string
  re_toISO :: "int \<Rightarrow> string"
  re_startedMs :: int
  re_heartbeatMs :: int
  re_search :: "string + string list"
  re_plan :: "string + string"
  re_jsonParse :: "string \<Rightarrow> string list option"
  re_running :: "nat \<Rightarrow> bool"
  re_getPageState :: "(nat \<Rightarrow> PageState option) option"
  re_step :: "nat \<Rightarrow> string + string"
  re_stepMs :: "nat \<Rightarrow> int"
  re_stepHeartbeatMs :: "nat \<Rightarrow> int"
  re_finishedMs :: int
  re_statusMs :: int
  re_requeueMs :: int
  re_store :: "string option"
  re_clearedMs :: int

text \<open>JavaScript truthiness of an optional string: absent and empty are falsy.\<close>

definition truthy :: "string option \<Rightarrow> bool" where
  "truthy v = (case v of None \<Rightarrow> False | Some s \<Rightarrow> s \<noteq> [])"

text \<open>\<open>Array.prototype.join\<close> and \<open>String.prototype.trim\<close> (on ASCII white space).\<close>

fun join_strings :: "string \<Rightarrow> string list \<Rightarrow> string" where
  "join_strings sep [] = []"
| "join_strings sep [x] = x"
| "join_strings sep (x # y # ys) = x @ sep @ join_strings sep (y # ys)"

definition is_space :: "char \<Rightarrow> bool" where
  "is_space c = (c \<in> set [CHR '' '', CHR 0x09, CHR 0x0A, CHR 0x0B, CHR 0x0C, CHR 0x0D])"

definition trim :: "string \<Rightarrow> string" where
  "trim s = rev (dropWhile is_space (rev (dropWhile is_space s)))"

text \<open>
  \<open>text.match(/\[[\s\S]*\]/)\<close>: the match starts at the first \<open>[\<close> and, being greedy,
  ends at the last \<open>]\<close> after it; there is none when no \<open>]\<close> follows the first \<open>[\<close>.
\<close>

definition bracket_match :: "string \<Rightarrow> string option" where
  "bracket_match s =
     (case dropWhile (\<lambda>c. c \<noteq> CHR ''['') s of
        [] \<Rightarrow> None
      | c # rest \<Rightarrow>
          (case dropWhile (\<lambda>c. c \<noteq> CHR '']'') (rev rest) of
             [] \<Rightarrow> None
           | r \<Rightarrow> Some (c # rev r)))"

text \<open>The plan: the two nested \<open>try\<close> blocks around the planning request.\<close>

definition make_plan :: "RunnerEnv \<Rightarrow> string \<Rightarrow> string list" where
  "make_plan env goal_text =
     (case re_plan env of
        Inl err \<Rightarrow> [goal_text]
      | Inr resp_txt \<Rightarrow>
          (case bracket_match resp_txt of
             None \<Rightarrow> []
           | Some m \<Rightarrow>
               (case re_jsonParse env m of
                  None \<Rightarrow> [goal_text]
                | Some steps \<Rightarrow> steps)))"

text \<open>The variables the step loop updates, with the database.\<close>

record LoopState =
  ls_db :: Db
  ls_memory :: WorkingMemory
  ls_steps :: "RunStep list"
  ls_consecutiveFailures :: nat
  ls_taskFailed :: bool
  ls_pauseReason :: "string option"

datatype LoopCtl = Break LoopState | Continue LoopState

definition is_blocking :: "PageAlert \<Rightarrow> bool" where
  "is_blocking a = (alert_type a = ''captcha'' \<or> alert_type a = ''2fa'')"

text \<open>
  The page observation at the start of a step (the inner \<open>try\<close>): \<open>Break\<close> when a blocking
  alert is seen; otherwise the hash is kept, and a failed observation changes nothing.
\<close>

definition observe_page :: "RunnerEnv \<Rightarrow> Task \<Rightarrow> nat \<Rightarrow> LoopState \<Rightarrow> LoopCtl" where
  "observe_page env task stepIdx st =
     (if truthy (url (payload task))
      then (case re_getPageState env of
              None \<Rightarrow> Continue st
            | Some getPageState \<Rightarrow>
                (case getPageState stepIdx of
                   None \<Rightarrow> Continue st
                 | Some ps \<Rightarrow>
                     (let blockingAlerts = filter is_blocking (ps_alerts ps) in
                      if length blockingAlerts > 0
                      then Break (st\<lparr>ls_pauseReason :=
                             Some (''Blocked by '' @ join_strings '', '' (map alert_type blockingAlerts))\<rparr>)
                      else Continue (st\<lparr>ls_memory :=
                             (ls_memory st)\<lparr>wm_lastPageStateHash := Some (ps_hash ps)\<rparr>\<rparr>))))
      else Continue st)"

text \<open>After the \<open>try\<close>/\<open>catch\<close> of a step: record the step and save the agent state.\<close>

definition record_step ::
  "RunnerEnv \<Rightarrow> string \<Rightarrow> Task \<Rightarrow> nat \<Rightarrow> string \<Rightarrow> string \<Rightarrow> bool \<Rightarrow> LoopState \<Rightarrow> LoopCtl" where
  "record_step env agentId task stepIdx stepDesc stepResult stepOk st =
     (let st1 = st\<lparr>ls_steps := ls_steps st @
                    [\<lparr>step_index = stepIdx, step_description = stepDesc,
                      step_result = stepResult, step_timestampMs = re_stepMs env stepIdx\<rparr>]\<rparr>;
          st2 = st1\<lparr>ls_db := (ls_db st1)\<lparr>db_agent_state :=
                    saveAgentState
                      \<lparr>as_agentId = agentId, as_currentTaskId = Some (task_id task),
                       as_lastHeartbeatAt = Some (re_toISO env (re_stepHeartbeatMs env stepIdx)),
                       as_workingMemory = Some (ls_memory st1)\<rparr>
                      (db_agent_state (ls_db st1))\<rparr>\<rparr>
      in if \<not> stepOk \<and> ls_consecutiveFailures st2 \<ge> MAX_CONSECUTIVE_FAILURES
         then Break st2 else Continue st2)"

text \<open>
  One iteration of the step loop, after the check of the \<open>running\<close> flag. The plan is a
  list of strings, so the default of \<open>plan[stepIdx] ?? "Execute goal"\<close> is never taken.
\<close>

definition step_body ::
  "RunnerEnv \<Rightarrow> string \<Rightarrow> Task \<Rightarrow> string list \<Rightarrow> nat \<Rightarrow> LoopState \<Rightarrow> LoopCtl" where
  "step_body env agentId task plan stepIdx st =
     (let stepDesc = plan ! stepIdx;
          st0 = st\<lparr>ls_memory := (ls_memory st)\<lparr>wm_currentStepIndex := Some stepIdx\<rparr>\<rparr>
      in case observe_page env task stepIdx st0 of
           Break st1 \<Rightarrow> Break st1
         | Continue st1 \<Rightarrow>
             (case re_step env stepIdx of
                Inr resp_txt \<Rightarrow>
                  record_step env agentId task stepIdx stepDesc (trim resp_txt) True
                    (st1\<lparr>ls_consecutiveFailures := 0\<rparr>)
              | Inl msg \<Rightarrow>
                  (let st2 = st1\<lparr>ls_consecutiveFailures := Suc (ls_consecutiveFailures st1)\<rparr> in
                   if ls_consecutiveFailures st2 \<ge> MAX_CONSECUTIVE_FAILURES
                   then Break (st2\<lparr>ls_pauseReason :=
                                 Some (string_of_nat MAX_CONSECUTIVE_FAILURES @ '' consecutive failures''),
                               ls_taskFailed := True\<rparr>)
                   else record_step env agentId task stepIdx stepDesc (''Error: '' @ msg) False st2)))"

text \<open>
  The \<open>for\<close> loop: \<open>stepIdx\<close> runs from 0 while it is below
  \<open>Math.min(plan.length, MAX_STEPS_PER_RUN)\<close>, so \<open>plan[stepIdx]\<close> is always in range.
\<close>

function step_loop ::
  "RunnerEnv \<Rightarrow> string \<Rightarrow> Task \<Rightarrow> string list \<Rightarrow> nat \<Rightarrow> LoopState \<Rightarrow> LoopState" where
  "step_loop env agentId task plan stepIdx st =
     (if stepIdx < min (length plan) MAX_STEPS_PER_RUN
      then (if \<not> re_running env stepIdx then st
            else case step_body env agentId task plan stepIdx st of
                   Break st' \<Rightarrow> st'
                 | Continue st' \<Rightarrow> step_loop env agentId task plan (Suc stepIdx) st')
      else st)"
  by pat_completeness auto
termination
  by (relation "measure (\<lambda>(env, agentId, task, plan, stepIdx, st).
                  min (length plan) MAX_STEPS_PER_RUN - stepIdx)") auto

declare step_loop.simps [simp del]

datatype ExecResult = Completed | Rejected string

definition empty_memory :: WorkingMemory where
  "empty_memory = \<lparr>wm_goal = None, wm_currentPlan = None, wm_currentStepIndex = None,
                    wm_lastPageStateHash = None\<rparr>"

text \<open>
  What follows the loop: the final status, the memory of a success, the run log and the
  cleared agent state. A \<open>store\<close> that throws ends the call before the last two.
\<close>

definition finish_task :: "RunnerEnv \<Rightarrow> string \<Rightarrow> Task \<Rightarrow> TaskRun \<Rightarrow> LoopState \<Rightarrow> ExecResult \<times> Db" where
  "finish_task env agentId task run st =
     (let run1 = run\<lparr>run_steps := ls_steps st,
                     run_finishedAt := Some (re_toISO env (re_finishedMs env))\<rparr>;
          db = ls_db st;
          now = re_toISO env (re_statusMs env);
          persist = (\<lambda>d. d\<lparr>db_task_runs := saveTaskRun run1 (db_task_runs d),
                           db_agent_state :=
                             saveAgentState
                               \<lparr>as_agentId = agentId, as_currentTaskId = None,
                                as_lastHeartbeatAt = Some (re_toISO env (re_clearedMs env)),
                                as_workingMemory = Some empty_memory\<rparr>
                               (db_agent_state d)\<rparr>)
      in if truthy (ls_pauseReason st)
         then (Completed,
               persist (db\<lparr>db_tasks := updateStatus (task_id task) Paused (ls_pauseReason st) now
                                          (db_tasks db)\<rparr>))
         else if ls_taskFailed st
         then (Completed,
               persist (db\<lparr>db_tasks := updateStatus (task_id task) Failed
                                          (Some ''max consecutive failures'') now (db_tasks db)\<rparr>))
         else
           (let db1 = (case recurrence task of
                         None \<Rightarrow> db\<lparr>db_tasks := updateStatus (task_id task) Done None now (db_tasks db)\<rparr>
                       | Some Once \<Rightarrow>
                           db\<lparr>db_tasks := updateStatus (task_id task) Done None now (db_tasks db)\<rparr>
                       | Some rule \<Rightarrow>
                           db\<lparr>db_tasks := requeueRecurring (re_toISO env) (re_requeueMs env) now task
                                             (db_tasks db)\<rparr>)
            in case re_store env of
                 Some err \<Rightarrow> (Rejected err, db1)
               | None \<Rightarrow> (Completed, persist db1)))"

text \<open>
  The start of \<open>executeTask\<close>: the new run, the working memory with the goal, the
  database after the first \<open>saveAgentState\<close>, and the state in which the loop starts.
\<close>

definition new_run :: "RunnerEnv \<Rightarrow> string \<Rightarrow> Task \<Rightarrow> TaskRun" where
  "new_run env agentId task =
     \<lparr>run_id = re_runId env, run_taskId = task_id task, run_agentId = agentId,
      run_startedAt = re_toISO env (re_startedMs env), run_finishedAt = None,
      run_steps = [], run_tokensEstimate = None, run_error = None\<rparr>"

definition start_memory :: "string \<Rightarrow> Task \<Rightarrow> Db \<Rightarrow> WorkingMemory" where
  "start_memory agentId task db =
     (case as_workingMemory (getAgentState agentId (db_agent_state db)) of
        None \<Rightarrow> empty_memory
      | Some m \<Rightarrow> m)\<lparr>wm_goal := Some (goal (payload task))\<rparr>"

definition start_db :: "RunnerEnv \<Rightarrow> string \<Rightarrow> Task \<Rightarrow> Db \<Rightarrow> Db" where
  "start_db env agentId task db =
     db\<lparr>db_agent_state :=
          saveAgentState
            \<lparr>as_agentId = agentId, as_currentTaskId = Some (task_id task),
             as_lastHeartbeatAt = Some (re_toISO env (re_heartbeatMs env)),
             as_workingMemory = Some (start_memory agentId task db)\<rparr>
            (db_agent_state db)\<rparr>"

definition loop_start :: "RunnerEnv \<Rightarrow> string \<Rightarrow> Task \<Rightarrow> Db \<Rightarrow> LoopState" where
  "loop_start env agentId task db =
     \<lparr>ls_db = start_db env agentId task db,
      ls_memory = (start_memory agentId task db)
                    \<lparr>wm_currentPlan := Some (make_plan env (goal (payload task))),
                     wm_currentStepIndex := Some 0\<rparr>,
      ls_steps = [], ls_consecutiveFailures = 0, ls_taskFailed = False,
      ls_pauseReason = None\<rparr>"

definition executeTask :: "RunnerEnv \<Rightarrow> string \<Rightarrow> Task \<Rightarrow> Db \<Rightarrow> ExecResult \<times> Db" where
  "executeTask env agentId task db =
     (case re_search env of
        Inl err \<Rightarrow> (Rejected err, start_db env agentId task db)
      | Inr relevantMemories \<Rightarrow>
          finish_task env agentId task (new_run env agentId task)
            (step_loop env agentId task (make_plan env (goal (payload task))) 0
               (loop_start env agentId task db)))"

text \<open>
  The state in which iteration \<open>i\<close> of the loop starts, when the loop gets that far:
  every earlier iteration found the \<open>running\<close> flag set and ended without \<open>break\<close>.
\<close>

primrec state_at_step ::
  "RunnerEnv \<Rightarrow> string \<Rightarrow> Task \<Rightarrow> string list \<Rightarrow> LoopState \<Rightarrow> nat \<Rightarrow> LoopState option" where
  "state_at_step env agentId task plan st0 0 = Some st0"
| "state_at_step env agentId task plan st0 (Suc i) =
     (case state_at_step env agentId task plan st0 i of
        None \<Rightarrow> None
      | Some st \<Rightarrow>
          if i < min (length plan) MAX_STEPS_PER_RUN \<and> re_running env i
          then (case step_body env agentId task plan i st of
                  Continue st' \<Rightarrow> Some st'
                | Break st' \<Rightarrow> None)
          else None)"


text \<open>
  \<open>tick\<close>: claim the next task and execute it; an error of \<open>executeTask\<close> is logged and
  dropped, what was written before it stays.
\<close>

definition tick :: "RunnerEnv \<Rightarrow> string \<Rightarrow> bool \<Rightarrow> string \<Rightarrow> Db \<Rightarrow> Db" where
  "tick env agentId is_running now db =
     (if \<not> is_running then db
      else case claimNext agentId now (db_tasks db) of
             (None, tasks') \<Rightarrow> db
           | (Some task, tasks') \<Rightarrow> snd (executeTask env agentId task (db\<lparr>db_tasks := tasks'\<rparr>)))"

section \<open>Vocabulary for the properties of the router\<close>










section \<open>Example store\<close>

definition ex_payload :: TaskPayload where
  "ex_payload = \<lparr>goal = ''Like latest post'', url = Some ''https://x.com/home'',
                  params = None, constraints = None\<rparr>"

definition ex_task :: "string \<Rightarrow> TaskStatus \<Rightarrow> int \<Rightarrow> string option \<Rightarrow> string \<Rightarrow> Task" where
  "ex_task i st p nxt cr =
     \<lparr>task_id = i, agent_id = ''A'', status = st, priority = p, payload = ex_payload,
      recurrence = None, next_run_at = nxt, status_reason = None,
      created_at = cr, updated_at = cr\<rparr>"

definition ex_tasks :: "Task list" where
  "ex_tasks =
     [ex_task ''t1'' Queued 3 None ''2026-01-01T00:00:01.000Z'',
      ex_task ''t2'' Queued 1 None ''2026-01-01T00:00:03.000Z'',
      ex_task ''t3'' Queued 1 None ''2026-01-01T00:00:02.000Z'',
      ex_task ''t4'' Queued 1 (Some ''2026-02-01T00:00:00.000Z'') ''2026-01-01T00:00:00.000Z'',
      ex_task ''t5'' Running 1 None ''2026-01-01T00:00:00.500Z'']"

definition ex_now :: string where
  "ex_now = ''2026-01-01T00:01:00.000Z''"

text \<open>
  \<open>toISOString\<close> on the three instants the examples use (milliseconds since the epoch):
  00:05, 00:10 and 00:10:01 on 2026-01-01.
\<close>

definition ex_toISO :: "int \<Rightarrow> string" where
  "ex_toISO ms =
     (if ms = 1767225900000 then ''2026-01-01T00:05:00.000Z''
      else if ms = 1767226200000 then ''2026-01-01T00:10:00.000Z''
      else if ms = 1767226201000 then ''2026-01-01T00:10:01.000Z''
      else ''1970-01-01T00:00:00.000Z'')"










text \<open>Example worlds of the runner: a plan of three steps, a clean page and a blocked one.\<close>

definition ex_plan_text :: string where
  \<open>ex_plan_text = ''["Open the page","Find the latest post","Like it"]''\<close>

definition ex_plan :: "string list" where
  "ex_plan = [''Open the page'', ''Find the latest post'', ''Like it'']"

definition ex_page :: PageState where
  "ex_page = \<lparr>ps_title = ''Home / X'', ps_page_type = ''feed'',
               ps_elements = [(''button'', ''Like'')], ps_alerts = [], ps_hash = ''0123456789abcdef''\<rparr>"

definition ex_blocked_page :: PageState where
  "ex_blocked_page = ex_page\<lparr>ps_page_type := ''captcha'',
      ps_alerts := [\<lparr>alert_type = ''cookie_banner'', alert_text = ''We use cookies''\<rparr>,
                    \<lparr>alert_type = ''captcha'', alert_text = ''Prove you are human''\<rparr>,
                    \<lparr>alert_type = ''2fa'', alert_text = ''Enter the code''\<rparr>]\<rparr>"

definition ex_env :: RunnerEnv where
  "ex_env = \<lparr>re_runId = ''run-1'', re_toISO = ex_toISO,
             re_startedMs = 1767226200000, re_heartbeatMs = 1767226200000,
             re_search = Inr [], re_plan = Inr ex_plan_text,
             re_jsonParse = (\<lambda>s. if s = ex_plan_text then Some ex_plan else None),
             re_running = (\<lambda>i. True),
             re_getPageState = Some (\<lambda>i. Some ex_page),
             re_step = (\<lambda>i. Inr ''Done. ''),
             re_stepMs = (\<lambda>i. 1767226200000 + int i),
             re_stepHeartbeatMs = (\<lambda>i. 1767226200000),
             re_finishedMs = 1767226201000, re_statusMs = 1767226201000,
             re_requeueMs = 1767226201000, re_store = None, re_clearedMs = 1767226201000\<rparr>"

definition ex_claimed :: Task where
  "ex_claimed = ex_task ''t3'' Running 1 None ''2026-01-01T00:00:02.000Z''"

definition ex_db :: Db where
  "ex_db = \<lparr>db_tasks = [ex_task ''t1'' Queued 3 None ''2026-01-01T00:00:01.000Z'', ex_claimed],
            db_task_runs = [], db_agent_state = Map.empty\<rparr>"

definition ex_env_blocked :: RunnerEnv where
  "ex_env_blocked =
     ex_env\<lparr>re_getPageState := Some (\<lambda>i. if i = 1 then Some ex_blocked_page else Some ex_page)\<rparr>"


definition ex_env_no_plan :: RunnerEnv where
  "ex_env_no_plan = ex_env\<lparr>re_plan := Inr ''I cannot produce a plan.''\<rparr>"

definition ex_env_store_fails :: RunnerEnv where
  "ex_env_store_fails = ex_env\<lparr>re_store := Some ''database is locked''\<rparr>"

section \<open>Properties of the task queue\<close>

subsection \<open>claimNext\<close>

lemma select_next_None_iff:
  "select_next a now ts = None \<longleftrightarrow> (\<forall>t \<in> set ts. \<not> claimable a now t)"
proof -
  have "select_next a now ts = None \<longleftrightarrow>
        sort_key (\<lambda>t. (priority t, created_at t)) (filter (claimable a now) ts) = []"
    by (simp add: select_next_def split: list.splits)
  also have "\<dots> \<longleftrightarrow> set (sort_key (\<lambda>t. (priority t, created_at t)) (filter (claimable a now) ts)) = {}"
    by (simp only: set_empty)
  also have "\<dots> \<longleftrightarrow> (\<forall>t \<in> set ts. \<not> claimable a now t)"
    by (auto simp: filter_empty_conv)
  finally show ?thesis .
qed


lemma claimNext_None:
  "(\<forall>t \<in> set ts. \<not> claimable a now t) \<Longrightarrow> claimNext a now ts = (None, ts)"
  using select_next_None_iff[of a now ts] by (simp add: claimNext_def)










subsection \<open>The startup scan\<close>

lemma initialize_nth:
  "i < length ts \<Longrightarrow> initialize toISO n0 n1 ts ! i =
     (if status (ts ! i) = Running \<and> updated_at (ts ! i) < toISO (n0 - STALE_RUNNING_MS)
      then (ts ! i)\<lparr>status := Queued, status_reason := Some ''reset after stale run'',
                     updated_at := toISO n1\<rparr>
      else ts ! i)"
  by (simp add: initialize_def Let_def)

lemma initialize_length: "length (initialize toISO n0 n1 ts) = length ts"
  by (simp add: initialize_def Let_def)

text \<open>
  C8. The stale threshold is 300000 ms. The startup scan resets every row that is
  \<open>running\<close> with \<open>updated_at\<close> before the threshold instant to \<open>queued\<close> with reason
  "reset after stale run" (and a fresh \<open>updated_at\<close>); a later scan, at any time, leaves a
  row reset in this way as it is; every other row is untouched by the scan.
\<close>

theorem initialize_resets_stale_once:
  "STALE_RUNNING_MS = 300000 \<and>
   length (initialize toISO n0 n1 ts) = length ts \<and>
   (\<forall>i < length ts.
      (status (ts ! i) = Running \<and> updated_at (ts ! i) < toISO (n0 - STALE_RUNNING_MS) \<longrightarrow>
         initialize toISO n0 n1 ts ! i =
           (ts ! i)\<lparr>status := Queued, status_reason := Some ''reset after stale run'',
                     updated_at := toISO n1\<rparr> \<and>
         (\<forall>toISO' m0 m1.
            initialize toISO' m0 m1 (initialize toISO n0 n1 ts) ! i = initialize toISO n0 n1 ts ! i)) \<and>
      (\<not> (status (ts ! i) = Running \<and> updated_at (ts ! i) < toISO (n0 - STALE_RUNNING_MS)) \<longrightarrow>
         initialize toISO n0 n1 ts ! i = ts ! i))"
proof (intro conjI allI impI)
  show "STALE_RUNNING_MS = 300000" by (simp add: STALE_RUNNING_MS_def)
  show "length (initialize toISO n0 n1 ts) = length ts" by (rule initialize_length)
next
  fix i assume i: "i < length ts"
    and stale: "status (ts ! i) = Running \<and> updated_at (ts ! i) < toISO (n0 - STALE_RUNNING_MS)"
  show r: "initialize toISO n0 n1 ts ! i =
           (ts ! i)\<lparr>status := Queued, status_reason := Some ''reset after stale run'',
                     updated_at := toISO n1\<rparr>"
    using i stale by (simp add: initialize_nth)
  fix toISO' m0 m1
  have "i < length (initialize toISO n0 n1 ts)" using i by (simp add: initialize_length)
  then show "initialize toISO' m0 m1 (initialize toISO n0 n1 ts) ! i = initialize toISO n0 n1 ts ! i"
    by (simp add: initialize_nth[of i "initialize toISO n0 n1 ts"] r)
next
  fix i assume i: "i < length ts"
    and "\<not> (status (ts ! i) = Running \<and> updated_at (ts ! i) < toISO (n0 - STALE_RUNNING_MS))"
  then show "initialize toISO n0 n1 ts ! i = ts ! i"
    by (auto simp add: initialize_nth)
qed

theorem initialize_resets_stale_once_witness:
  "status (ex_tasks ! 4) = Running \<and>
   updated_at (ex_tasks ! 4) < ex_toISO (1767226200000 - STALE_RUNNING_MS) \<and>
   initialize ex_toISO 1767226200000 1767226201000 ex_tasks ! 4 =
     (ex_task ''t5'' Queued 1 None ''2026-01-01T00:00:00.500Z'')
       \<lparr>status_reason := Some ''reset after stale run'',
        updated_at := ''2026-01-01T00:10:01.000Z''\<rparr> \<and>
   initialize ex_toISO 1767229800000 1767229801000
       (initialize ex_toISO 1767226200000 1767226201000 ex_tasks) ! 4 =
     initialize ex_toISO 1767226200000 1767226201000 ex_tasks ! 4 \<and>
   status (ex_tasks ! 0) \<noteq> Running \<and>
   initialize ex_toISO 1767226200000 1767226201000 ex_tasks ! 0 = ex_tasks ! 0"
proof -
  note inst = initialize_resets_stale_once[of ex_toISO 1767226200000 1767226201000 ex_tasks]
  have len: "4 < length ex_tasks" "0 < length ex_tasks" by (simp_all add: ex_tasks_def)
  have st: "status (ex_tasks ! 4) = Running" by (simp add: ex_tasks_def ex_task_def)
  have old: "updated_at (ex_tasks ! 4) < ex_toISO (1767226200000 - STALE_RUNNING_MS)"
    by (simp add: ex_tasks_def ex_task_def ex_toISO_def STALE_RUNNING_MS_def)
  have t4: "ex_tasks ! 4 = ex_task ''t5'' Running 1 None ''2026-01-01T00:00:00.500Z''"
    by (simp add: ex_tasks_def)
  from inst len(1) st old
  have r: "initialize ex_toISO 1767226200000 1767226201000 ex_tasks ! 4 =
           (ex_tasks ! 4)\<lparr>status := Queued, status_reason := Some ''reset after stale run'',
                     updated_at := ex_toISO 1767226201000\<rparr>"
    and again: "initialize ex_toISO 1767229800000 1767229801000
       (initialize ex_toISO 1767226200000 1767226201000 ex_tasks) ! 4 =
     initialize ex_toISO 1767226200000 1767226201000 ex_tasks ! 4"
    by blast+
  have r': "initialize ex_toISO 1767226200000 1767226201000 ex_tasks ! 4 =
     (ex_task ''t5'' Queued 1 None ''2026-01-01T00:00:00.500Z'')
       \<lparr>status_reason := Some ''reset after stale run'',
        updated_at := ''2026-01-01T00:10:01.000Z''\<rparr>"
    by (simp add: r t4) (simp add: ex_task_def ex_toISO_def)
  have q: "status (ex_tasks ! 0) \<noteq> Running" by (simp add: ex_tasks_def ex_task_def)
  from inst len(2) q
  have same: "initialize ex_toISO 1767226200000 1767226201000 ex_tasks ! 0 = ex_tasks ! 0"
    by blast
  from st old r' again q same show ?thesis by (intro conjI)
qed

subsection \<open>updateStatus\<close>

lemma updateStatus_nth:
  "i < length ts \<Longrightarrow> updateStatus tid st r now ts ! i =
     (if task_id (ts ! i) = tid then (ts ! i)\<lparr>status := st, status_reason := r, updated_at := now\<rparr> else ts ! i)"
  by (simp add: updateStatus_def)

text \<open>
  C10. \<open>updateStatus\<close> keeps the number of rows; in every row it leaves the id, agent id,
  priority, payload, recurrence, next-run time and creation time as they were; a row with
  another id is unchanged; a row with the given id differs from the old row in status,
  status reason and update time only.
\<close>

theorem updateStatus_frame:
  "length (updateStatus tid st r now ts) = length ts \<and>
   (\<forall>i < length ts.
      task_id (updateStatus tid st r now ts ! i) = task_id (ts ! i) \<and>
      agent_id (updateStatus tid st r now ts ! i) = agent_id (ts ! i) \<and>
      priority (updateStatus tid st r now ts ! i) = priority (ts ! i) \<and>
      payload (updateStatus tid st r now ts ! i) = payload (ts ! i) \<and>
      recurrence (updateStatus tid st r now ts ! i) = recurrence (ts ! i) \<and>
      next_run_at (updateStatus tid st r now ts ! i) = next_run_at (ts ! i) \<and>
      created_at (updateStatus tid st r now ts ! i) = created_at (ts ! i) \<and>
      (task_id (ts ! i) \<noteq> tid \<longrightarrow> updateStatus tid st r now ts ! i = ts ! i) \<and>
      (task_id (ts ! i) = tid \<longrightarrow>
         updateStatus tid st r now ts ! i =
           (ts ! i)\<lparr>status := st, status_reason := r, updated_at := now\<rparr>))"
  by (simp add: updateStatus_nth) (simp add: updateStatus_def)

theorem updateStatus_frame_witness:
  "1 < length ex_tasks \<and> task_id (ex_tasks ! 1) = ''t2'' \<and>
   updateStatus ''t2'' Paused (Some ''Blocked by captcha'') ex_now ex_tasks ! 1 =
     (ex_tasks ! 1)\<lparr>status := Paused, status_reason := Some ''Blocked by captcha'',
                     updated_at := ex_now\<rparr> \<and>
   priority (updateStatus ''t2'' Paused (Some ''Blocked by captcha'') ex_now ex_tasks ! 1) = 1 \<and>
   task_id (ex_tasks ! 0) \<noteq> ''t2'' \<and>
   updateStatus ''t2'' Paused (Some ''Blocked by captcha'') ex_now ex_tasks ! 0 = ex_tasks ! 0"
proof -
  note inst = updateStatus_frame[of "''t2''" Paused "Some ''Blocked by captcha''" ex_now ex_tasks]
  have len: "1 < length ex_tasks" "0 < length ex_tasks" by (simp_all add: ex_tasks_def)
  have i1: "task_id (ex_tasks ! 1) = ''t2''" by (simp add: ex_tasks_def ex_task_def)
  have i0: "task_id (ex_tasks ! 0) \<noteq> ''t2''" by (simp add: ex_tasks_def ex_task_def)
  have p1: "priority (ex_tasks ! 1) = 1" by (simp add: ex_tasks_def ex_task_def)
  from inst len(1) i1
  have a: "updateStatus ''t2'' Paused (Some ''Blocked by captcha'') ex_now ex_tasks ! 1 =
     (ex_tasks ! 1)\<lparr>status := Paused, status_reason := Some ''Blocked by captcha'',
                     updated_at := ex_now\<rparr>"
    by blast
  from inst len(1)
  have "priority (updateStatus ''t2'' Paused (Some ''Blocked by captcha'') ex_now ex_tasks ! 1) =
        priority (ex_tasks ! 1)"
    by blast
  with p1 have b: "priority (updateStatus ''t2'' Paused (Some ''Blocked by captcha'') ex_now ex_tasks ! 1) = 1"
    by simp
  from inst len(2) i0
  have c: "updateStatus ''t2'' Paused (Some ''Blocked by captcha'') ex_now ex_tasks ! 0 = ex_tasks ! 0"
    by blast
  from len(1) i1 a b i0 c show ?thesis by (intro conjI)
qed

section \<open>Properties of the router\<close>

subsection \<open>Classification of a failed attempt\<close>


lemma length_update_first [simp]: "length (update_first P f xs) = length xs"
  by (induction xs) auto







subsection \<open>A disabled credential stays disabled\<close>


















subsection \<open>Every attempt rate-limited\<close>

lemma map_update_first:
  assumes "\<And>x. g (f x) = g x"
  shows "map g (update_first P f xs) = map g xs"
  using assms by (induction xs) auto




lemma markRateLimit_disabled: "map kh_disabled (markRateLimit now p k kh) = map kh_disabled kh"
  unfolding markRateLimit_def by (rule map_update_first) simp





































section \<open>Properties of the runner\<close>

subsection \<open>Substrings\<close>

lemma starts_with_append: "starts_with (p @ s) p"
  by (induction p) auto

lemma starts_with_extend: "starts_with s p \<Longrightarrow> starts_with (s @ t) p"
  by (induction s p rule: starts_with.induct) auto

lemma str_includes_Nil: "str_includes s []"
  by (cases s) auto

lemma str_includes_self_prefix: "str_includes (p @ s) p"
proof (cases "p @ s")
  case Nil then show ?thesis by simp
next
  case (Cons c cs)
  have "starts_with (p @ s) p" by (rule starts_with_append)
  with Cons show ?thesis by simp
qed

lemma str_includes_prepend: "str_includes s p \<Longrightarrow> str_includes (a @ s) p"
proof (induction a)
  case Nil then show ?case by simp
next
  case (Cons c a) then show ?case by simp
qed

lemma str_includes_extend: "str_includes s p \<Longrightarrow> str_includes (s @ t) p"
proof (induction s)
  case Nil
  then have "p = []" by simp
  then show ?case by (simp add: str_includes_Nil)
next
  case (Cons c s)
  from Cons.prems have "starts_with (c # s) p \<or> str_includes s p" by simp
  then show ?case
  proof
    assume "starts_with (c # s) p"
    from starts_with_extend[OF this, of t] show ?thesis by simp
  next
    assume "str_includes s p"
    from Cons.IH[OF this] show ?thesis by simp
  qed
qed

lemma str_includes_join:
  "x \<in> set xs \<Longrightarrow> str_includes (join_strings sep xs) x"
proof (induction sep xs rule: join_strings.induct)
  case (1 sep) then show ?case by simp
next
  case (2 sep y)
  then have "x = y" by simp
  with str_includes_self_prefix[of x "[]"] show ?case by simp
next
  case (3 sep y z zs)
  from "3.prems" have "x = y \<or> x \<in> set (z # zs)" by simp
  then show ?case
  proof
    assume "x = y"
    with str_includes_self_prefix[of x "sep @ join_strings sep (z # zs)"] show ?thesis by simp
  next
    assume "x \<in> set (z # zs)"
    from "3.IH"[OF this] have "str_includes (join_strings sep (z # zs)) x" .
    from str_includes_prepend[OF this, of "y @ sep"] show ?thesis by simp
  qed
qed

subsection \<open>The step loop\<close>

lemma state_at_step_loop:
  assumes "state_at_step env agentId task plan st0 i = Some st"
  shows "step_loop env agentId task plan 0 st0 = step_loop env agentId task plan i st"
  using assms
proof (induction i arbitrary: st)
  case 0
  then show ?case by simp
next
  case (Suc i)
  from Suc.prems obtain st1 where
    s1: "state_at_step env agentId task plan st0 i = Some st1"
    and c: "i < min (length plan) MAX_STEPS_PER_RUN" "re_running env i"
    and b: "step_body env agentId task plan i st1 = Continue st"
    by (auto split: option.splits if_splits LoopCtl.splits)
  have "step_loop env agentId task plan i st1 = step_loop env agentId task plan (Suc i) st"
    using c b by (subst step_loop.simps) simp
  with Suc.IH[OF s1] show ?case by simp
qed

text \<open>What an iteration that does not break leaves alone and what it adds.\<close>

lemma observe_page_Continue:
  assumes "observe_page env task i st = Continue st'"
  shows "ls_steps st' = ls_steps st" "ls_pauseReason st' = ls_pauseReason st"
    "ls_taskFailed st' = ls_taskFailed st" "ls_db st' = ls_db st"
    "ls_consecutiveFailures st' = ls_consecutiveFailures st"
  using assms
  by (auto simp: observe_page_def Let_def split: if_splits option.splits)

lemma record_step_Continue:
  assumes "record_step env agentId task i d r ok st = Continue st'"
  shows "ls_steps st' = ls_steps st @ [\<lparr>step_index = i, step_description = d, step_result = r,
                                         step_timestampMs = re_stepMs env i\<rparr>]"
    "ls_pauseReason st' = ls_pauseReason st" "ls_taskFailed st' = ls_taskFailed st"
    "db_tasks (ls_db st') = db_tasks (ls_db st)" "db_task_runs (ls_db st') = db_task_runs (ls_db st)"
    "ls_consecutiveFailures st' = ls_consecutiveFailures st"
  using assms
  by (auto simp: record_step_def Let_def split: if_splits)

lemma step_body_Continue:
  assumes "step_body env agentId task plan i st = Continue st'"
  shows "(\<exists>s. ls_steps st' = ls_steps st @ [s] \<and> step_index s = i) \<and>
      ls_pauseReason st' = ls_pauseReason st \<and> ls_taskFailed st' = ls_taskFailed st \<and>
      db_tasks (ls_db st') = db_tasks (ls_db st) \<and> db_task_runs (ls_db st') = db_task_runs (ls_db st) \<and>
      ls_consecutiveFailures st' < MAX_CONSECUTIVE_FAILURES"
proof -
  let ?st0 = "st\<lparr>ls_memory := (ls_memory st)\<lparr>wm_currentStepIndex := Some i\<rparr>\<rparr>"
  from assms obtain st1 where o: "observe_page env task i ?st0 = Continue st1"
    by (auto simp: step_body_def Let_def split: LoopCtl.splits)
  note oc = observe_page_Continue[OF o]
  show ?thesis
  proof (cases "re_step env i")
    case (Inr answer)
    with assms o have r: "record_step env agentId task i (plan ! i) (trim answer) True
                    (st1\<lparr>ls_consecutiveFailures := 0\<rparr>) = Continue st'"
      by (simp add: step_body_def Let_def)
    from record_step_Continue[OF r] oc
    show ?thesis
      by (simp add: MAX_CONSECUTIVE_FAILURES_def)
  next
    case (Inl msg)
    let ?st2 = "st1\<lparr>ls_consecutiveFailures := Suc (ls_consecutiveFailures st1)\<rparr>"
    from assms o Inl have lt: "\<not> ls_consecutiveFailures ?st2 \<ge> MAX_CONSECUTIVE_FAILURES"
      and r: "record_step env agentId task i (plan ! i) (''Error: '' @ msg) False ?st2 = Continue st'"
      by (auto simp: step_body_def Let_def split: if_splits)
    from record_step_Continue[OF r] oc lt
    show ?thesis
      by simp
  qed
qed

lemma state_at_step_inv:
  "state_at_step env agentId task plan st0 i = Some st \<Longrightarrow>
   (\<exists>new. ls_steps st = ls_steps st0 @ new \<and> length new = i \<and> (\<forall>s \<in> set new. step_index s < i)) \<and>
   ls_pauseReason st = ls_pauseReason st0 \<and> ls_taskFailed st = ls_taskFailed st0 \<and>
   db_tasks (ls_db st) = db_tasks (ls_db st0) \<and> db_task_runs (ls_db st) = db_task_runs (ls_db st0) \<and>
   (0 < i \<longrightarrow> ls_consecutiveFailures st < MAX_CONSECUTIVE_FAILURES)"
proof (induction i arbitrary: st)
  case 0
  then show ?case by simp
next
  case (Suc i)
  from Suc.prems obtain st1 where
    s1: "state_at_step env agentId task plan st0 i = Some st1"
    and b: "step_body env agentId task plan i st1 = Continue st"
    by (auto split: option.splits if_splits LoopCtl.splits)
  from Suc.IH[OF s1] obtain new where
    n: "ls_steps st1 = ls_steps st0 @ new" "length new = i" "\<forall>s \<in> set new. step_index s < i"
    and r: "ls_pauseReason st1 = ls_pauseReason st0" "ls_taskFailed st1 = ls_taskFailed st0"
       "db_tasks (ls_db st1) = db_tasks (ls_db st0)" "db_task_runs (ls_db st1) = db_task_runs (ls_db st0)"
    by (elim exE conjE)
  note sb = step_body_Continue[OF b]
  from sb obtain s where
    s: "ls_steps st = ls_steps st1 @ [s]" "step_index s = i" by (elim exE conjE)
  have "ls_steps st = ls_steps st0 @ (new @ [s]) \<and> length (new @ [s]) = Suc i \<and>
        (\<forall>x \<in> set (new @ [s]). step_index x < Suc i)"
    using n s by (auto simp: less_Suc_eq)
  then have e: "\<exists>new. ls_steps st = ls_steps st0 @ new \<and> length new = Suc i \<and>
        (\<forall>s \<in> set new. step_index s < Suc i)"
    by (rule exI)
  from e sb r show ?case by simp
qed

lemma step_loop_Break:
  assumes "i < min (length plan) MAX_STEPS_PER_RUN" "re_running env i"
    and "step_body env agentId task plan i st = Break st'"
  shows "step_loop env agentId task plan i st = st'"
  using assms by (subst step_loop.simps) simp

lemma step_body_blocked:
  assumes "truthy (url (payload task))" "re_getPageState env = Some g" "g i = Some ps"
    and "filter is_blocking (ps_alerts ps) \<noteq> []"
  shows "step_body env agentId task plan i st =
           Break (st\<lparr>ls_memory := (ls_memory st)\<lparr>wm_currentStepIndex := Some i\<rparr>,
                     ls_pauseReason := Some (''Blocked by '' @ join_strings '', ''
                        (map alert_type (filter is_blocking (ps_alerts ps))))\<rparr>)"
  using assms by (simp add: step_body_def observe_page_def Let_def)



lemma finish_task_paused:
  assumes "truthy (ls_pauseReason st)"
  shows "finish_task env agentId task run st =
    (Completed,
     (ls_db st)\<lparr>db_tasks := updateStatus (task_id task) Paused (ls_pauseReason st)
                    (re_toISO env (re_statusMs env)) (db_tasks (ls_db st)),
                db_task_runs := saveTaskRun
                    (run\<lparr>run_steps := ls_steps st,
                         run_finishedAt := Some (re_toISO env (re_finishedMs env))\<rparr>)
                    (db_task_runs (ls_db st)),
                db_agent_state := saveAgentState
                    \<lparr>as_agentId = agentId, as_currentTaskId = None,
                     as_lastHeartbeatAt = Some (re_toISO env (re_clearedMs env)),
                     as_workingMemory = Some empty_memory\<rparr>
                    (db_agent_state (ls_db st))\<rparr>)"
  using assms by (simp add: finish_task_def Let_def)

lemma loop_start_simps:
  "ls_steps (loop_start env agentId task db) = []"
  "ls_pauseReason (loop_start env agentId task db) = None"
  "ls_taskFailed (loop_start env agentId task db) = False"
  "ls_consecutiveFailures (loop_start env agentId task db) = 0"
  "db_tasks (ls_db (loop_start env agentId task db)) = db_tasks db"
  "db_task_runs (ls_db (loop_start env agentId task db)) = db_task_runs db"
  by (simp_all add: loop_start_def start_db_def)

lemma updateStatus_sets:
  "\<forall>t \<in> set (updateStatus tid st r now ts). task_id t = tid \<longrightarrow> status t = st \<and> status_reason t = r"
proof (induction ts)
  case Nil
  show ?case by (simp add: updateStatus_def)
next
  case (Cons a ts)
  have "updateStatus tid st r now (a # ts) =
          (if task_id a = tid then a\<lparr>status := st, status_reason := r, updated_at := now\<rparr> else a)
          # updateStatus tid st r now ts"
    by (simp add: updateStatus_def)
  with Cons.IH show ?case by simp
qed

text \<open>The outcome of a run whose loop stops at step \<open>i\<close> with a pause reason.\<close>

lemma executeTask_stopped_with_reason:
  assumes search: "re_search env = Inr hints"
    and reach: "state_at_step env agentId task (make_plan env (goal (payload task)))
                  (loop_start env agentId task db) i = Some st"
    and i: "i < min (length (make_plan env (goal (payload task)))) MAX_STEPS_PER_RUN"
           "re_running env i"
    and brk: "step_body env agentId task (make_plan env (goal (payload task))) i st = Break st'"
    and st': "ls_steps st' = ls_steps st" "ls_db st' = ls_db st" "ls_pauseReason st' = Some reason"
             "reason \<noteq> []"
  shows "fst (executeTask env agentId task db) = Completed \<and>
     db_tasks (snd (executeTask env agentId task db)) =
       updateStatus (task_id task) Paused (Some reason) (re_toISO env (re_statusMs env)) (db_tasks db) \<and>
     db_task_runs (snd (executeTask env agentId task db)) =
       saveTaskRun ((new_run env agentId task)
                      \<lparr>run_steps := ls_steps st,
                       run_finishedAt := Some (re_toISO env (re_finishedMs env))\<rparr>)
         (db_task_runs db) \<and>
     db_agent_state (snd (executeTask env agentId task db)) agentId =
       Some \<lparr>as_agentId = agentId, as_currentTaskId = None,
             as_lastHeartbeatAt = Some (re_toISO env (re_clearedMs env)),
             as_workingMemory = Some empty_memory\<rparr> \<and>
     length (ls_steps st) = i \<and> (\<forall>s \<in> set (ls_steps st). step_index s < i)"
proof -
  let ?plan = "make_plan env (goal (payload task))"
  let ?st0 = "loop_start env agentId task db"
  have loop: "step_loop env agentId task ?plan 0 ?st0 = st'"
    by (simp only: state_at_step_loop[OF reach] step_loop_Break[OF i brk])
  note inv = state_at_step_inv[OF reach]
  from inv have dbt: "db_tasks (ls_db st) = db_tasks db" "db_task_runs (ls_db st) = db_task_runs db"
    by (simp_all add: loop_start_simps)
  from inv obtain new where "ls_steps st = ls_steps ?st0 @ new" "length new = i"
    "\<forall>s \<in> set new. step_index s < i" by (elim conjE exE)
  then have steps: "length (ls_steps st) = i" "\<forall>s \<in> set (ls_steps st). step_index s < i"
    by (simp_all add: loop_start_simps)
  have tr: "truthy (ls_pauseReason st')" using st'(3,4) by (simp add: truthy_def)
  have ex: "executeTask env agentId task db = finish_task env agentId task (new_run env agentId task) st'"
    by (simp add: executeTask_def search loop)
  have res: "executeTask env agentId task db =
    (Completed,
     (ls_db st)\<lparr>db_tasks := updateStatus (task_id task) Paused (Some reason)
                    (re_toISO env (re_statusMs env)) (db_tasks db),
                db_task_runs := saveTaskRun
                    ((new_run env agentId task)\<lparr>run_steps := ls_steps st,
                         run_finishedAt := Some (re_toISO env (re_finishedMs env))\<rparr>)
                    (db_task_runs db),
                db_agent_state := saveAgentState
                    \<lparr>as_agentId = agentId, as_currentTaskId = None,
                     as_lastHeartbeatAt = Some (re_toISO env (re_clearedMs env)),
                     as_workingMemory = Some empty_memory\<rparr>
                    (db_agent_state (ls_db st))\<rparr>)"
    unfolding ex finish_task_paused[OF tr] st' dbt ..
  have c1: "fst (executeTask env agentId task db) = Completed" by (simp only: res fst_conv)
  have c2: "db_tasks (snd (executeTask env agentId task db)) =
       updateStatus (task_id task) Paused (Some reason) (re_toISO env (re_statusMs env)) (db_tasks db)"
    unfolding res snd_conv by simp
  have c3: "db_task_runs (snd (executeTask env agentId task db)) =
       saveTaskRun ((new_run env agentId task)
                      \<lparr>run_steps := ls_steps st,
                       run_finishedAt := Some (re_toISO env (re_finishedMs env))\<rparr>)
         (db_task_runs db)"
    unfolding res snd_conv by simp
  have c4: "db_agent_state (snd (executeTask env agentId task db)) agentId =
       Some \<lparr>as_agentId = agentId, as_currentTaskId = None,
             as_lastHeartbeatAt = Some (re_toISO env (re_clearedMs env)),
             as_workingMemory = Some empty_memory\<rparr>"
    unfolding res snd_conv by (simp add: saveAgentState_def)
  from c1 c2 c3 c4 steps show ?thesis by (intro conjI)
qed

subsection \<open>The example worlds\<close>

lemma ex_bracket_match: "bracket_match ex_plan_text = Some ex_plan_text"
  by (simp add: bracket_match_def ex_plan_text_def)

lemma ex_make_plan: "re_plan env = Inr ex_plan_text \<Longrightarrow> re_jsonParse env = re_jsonParse ex_env \<Longrightarrow>
    make_plan env g = ex_plan"
  by (simp add: make_plan_def ex_bracket_match) (simp add: ex_env_def)

subsection \<open>Stopping on a blocking alert and on repeated failures\<close>

text \<open>
  C9. Let the loop reach step \<open>i\<close> in state \<open>st\<close> and the page observation of that step
  report an alert of type "captcha" or "2fa". Then the run ends: the task is set to
  \<open>paused\<close> with the reason "Blocked by " followed by the blocking alert types, which
  contains the type of every blocking alert reported; the run log that is saved holds the
  steps recorded before step \<open>i\<close> and no other, that is \<open>i\<close> steps, all with an index below
  \<open>i\<close>; and the agent's current task is cleared.
\<close>

theorem blocking_alert_pauses_run:
  assumes search: "re_search env = Inr hints"
    and reach: "state_at_step env agentId task (make_plan env (goal (payload task)))
                  (loop_start env agentId task db) i = Some st"
    and i: "i < min (length (make_plan env (goal (payload task)))) MAX_STEPS_PER_RUN"
           "re_running env i"
    and obs: "truthy (url (payload task))" "re_getPageState env = Some getPageState"
             "getPageState i = Some ps"
    and alert: "a \<in> set (ps_alerts ps)" "alert_type a = ''captcha'' \<or> alert_type a = ''2fa''"
  shows "fst (executeTask env agentId task db) = Completed \<and>
     db_tasks (snd (executeTask env agentId task db)) =
       updateStatus (task_id task) Paused
         (Some (''Blocked by '' @ join_strings '', ''
                  (map alert_type (filter is_blocking (ps_alerts ps)))))
         (re_toISO env (re_statusMs env)) (db_tasks db) \<and>
     (\<forall>t \<in> set (db_tasks (snd (executeTask env agentId task db))).
        task_id t = task_id task \<longrightarrow>
          status t = Paused \<and>
          status_reason t = Some (''Blocked by '' @ join_strings '', ''
                                   (map alert_type (filter is_blocking (ps_alerts ps))))) \<and>
     (\<forall>b \<in> set (ps_alerts ps). is_blocking b \<longrightarrow>
        str_includes (''Blocked by '' @ join_strings '', ''
                        (map alert_type (filter is_blocking (ps_alerts ps)))) (alert_type b)) \<and>
     db_task_runs (snd (executeTask env agentId task db)) =
       saveTaskRun ((new_run env agentId task)
                      \<lparr>run_steps := ls_steps st,
                       run_finishedAt := Some (re_toISO env (re_finishedMs env))\<rparr>)
         (db_task_runs db) \<and>
     length (ls_steps st) = i \<and> (\<forall>s \<in> set (ls_steps st). step_index s < i) \<and>
     db_agent_state (snd (executeTask env agentId task db)) agentId =
       Some \<lparr>as_agentId = agentId, as_currentTaskId = None,
             as_lastHeartbeatAt = Some (re_toISO env (re_clearedMs env)),
             as_workingMemory = Some empty_memory\<rparr>"
proof -
  let ?plan = "make_plan env (goal (payload task))"
  let ?types = "map alert_type (filter is_blocking (ps_alerts ps))"
  let ?reason = "''Blocked by '' @ join_strings '', '' ?types"
  from alert have blk: "is_blocking a" by (simp add: is_blocking_def)
  with alert(1) have ne: "filter is_blocking (ps_alerts ps) \<noteq> []"
    by (auto simp: filter_empty_conv)
  note brk = step_body_blocked[OF obs ne, of agentId ?plan st]
  have rne: "?reason \<noteq> []" by simp
  note main = executeTask_stopped_with_reason[OF search reach i brk _ _ _ rne]
  have m: "fst (executeTask env agentId task db) = Completed \<and>
     db_tasks (snd (executeTask env agentId task db)) =
       updateStatus (task_id task) Paused (Some ?reason) (re_toISO env (re_statusMs env)) (db_tasks db) \<and>
     db_task_runs (snd (executeTask env agentId task db)) =
       saveTaskRun ((new_run env agentId task)
                      \<lparr>run_steps := ls_steps st,
                       run_finishedAt := Some (re_toISO env (re_finishedMs env))\<rparr>)
         (db_task_runs db) \<and>
     db_agent_state (snd (executeTask env agentId task db)) agentId =
       Some \<lparr>as_agentId = agentId, as_currentTaskId = None,
             as_lastHeartbeatAt = Some (re_toISO env (re_clearedMs env)),
             as_workingMemory = Some empty_memory\<rparr> \<and>
     length (ls_steps st) = i \<and> (\<forall>s \<in> set (ls_steps st). step_index s < i)"
    by (rule main) simp_all
  have upd: "\<forall>t \<in> set (db_tasks (snd (executeTask env agentId task db))).
        task_id t = task_id task \<longrightarrow> status t = Paused \<and> status_reason t = Some ?reason"
    using updateStatus_sets[of "task_id task" Paused "Some ?reason" "re_toISO env (re_statusMs env)" "db_tasks db"]
    by (simp only: m[THEN conjunct2, THEN conjunct1])
  have inc: "\<forall>b \<in> set (ps_alerts ps). is_blocking b \<longrightarrow> str_includes ?reason (alert_type b)"
  proof (intro ballI impI)
    fix b assume "b \<in> set (ps_alerts ps)" "is_blocking b"
    then have "alert_type b \<in> set ?types" by simp
    from str_includes_join[OF this, of "'', ''"]
    show "str_includes ?reason (alert_type b)" by (rule str_includes_prepend)
  qed
  from m upd inc show ?thesis by (intro conjI) (elim conjE, assumption)+
qed


lemmas ex_runner_defs =
  ex_env_def ex_claimed_def ex_db_def ex_task_def ex_payload_def ex_page_def ex_blocked_page_def
  ex_plan_def

lemmas runner_defs =
  step_body_def observe_page_def record_step_def truthy_def is_blocking_def Let_def
  MAX_STEPS_PER_RUN_def MAX_CONSECUTIVE_FAILURES_def loop_start_def start_db_def start_memory_def
  getAgentState_def saveAgentState_def empty_memory_def trim_def is_space_def

lemma ex_plan_blocked: "make_plan ex_env_blocked g = ex_plan"
  by (rule ex_make_plan) (simp_all add: ex_env_blocked_def ex_env_def)


lemma ex_blocked_reach:
  "\<exists>st. state_at_step ex_env_blocked ''A'' ex_claimed ex_plan
          (loop_start ex_env_blocked ''A'' ex_claimed ex_db) 1 = Some st"
  by (simp add: ex_env_blocked_def ex_runner_defs runner_defs)


lemma ex_updateStatus_paused:
  "map status (updateStatus (task_id ex_claimed) Paused r now (db_tasks ex_db)) = [Queued, Paused]"
  "map status_reason (updateStatus (task_id ex_claimed) Paused r now (db_tasks ex_db)) = [None, r]"
  by (simp_all add: updateStatus_def ex_claimed_def ex_db_def ex_task_def)

theorem blocking_alert_pauses_run_witness:
  "re_search ex_env_blocked = Inr [] \<and>
   state_at_step ex_env_blocked ''A'' ex_claimed ex_plan
     (loop_start ex_env_blocked ''A'' ex_claimed ex_db) 1 \<noteq> None \<and>
   1 < min (length ex_plan) MAX_STEPS_PER_RUN \<and> re_running ex_env_blocked 1 \<and>
   truthy (url (payload ex_claimed)) \<and>
   fst (executeTask ex_env_blocked ''A'' ex_claimed ex_db) = Completed \<and>
   map status (db_tasks (snd (executeTask ex_env_blocked ''A'' ex_claimed ex_db))) = [Queued, Paused] \<and>
   map status_reason (db_tasks (snd (executeTask ex_env_blocked ''A'' ex_claimed ex_db))) =
     [None, Some ''Blocked by captcha, 2fa''] \<and>
   map (\<lambda>r. length (run_steps r)) (db_task_runs (snd (executeTask ex_env_blocked ''A'' ex_claimed ex_db))) = [1]"
proof -
  from ex_blocked_reach obtain st where
    reach: "state_at_step ex_env_blocked ''A'' ex_claimed ex_plan
              (loop_start ex_env_blocked ''A'' ex_claimed ex_db) 1 = Some st"
    by (elim exE)
  have search: "re_search ex_env_blocked = Inr []" by (simp add: ex_env_blocked_def ex_env_def)
  have i: "1 < min (length ex_plan) MAX_STEPS_PER_RUN" "re_running ex_env_blocked 1"
    by (simp_all add: ex_plan_def MAX_STEPS_PER_RUN_def ex_env_blocked_def ex_env_def)
  have u: "truthy (url (payload ex_claimed))"
    by (simp add: truthy_def ex_claimed_def ex_task_def ex_payload_def)
  have g: "re_getPageState ex_env_blocked =
             Some (\<lambda>i. if i = 1 then Some ex_blocked_page else Some ex_page)"
    by (simp add: ex_env_blocked_def ex_env_def)
  have ps: "(\<lambda>i. if i = 1 then Some ex_blocked_page else Some ex_page) (1::nat) = Some ex_blocked_page"
    by simp
  have a: "\<lparr>alert_type = ''captcha'', alert_text = ''Prove you are human''\<rparr> \<in> set (ps_alerts ex_blocked_page)"
    "alert_type \<lparr>alert_type = ''captcha'', alert_text = ''Prove you are human''\<rparr> = ''captcha'' \<or>
     alert_type \<lparr>alert_type = ''captcha'', alert_text = ''Prove you are human''\<rparr> = ''2fa''"
    by (simp_all add: ex_blocked_page_def)
  have reason: "''Blocked by '' @ join_strings '', ''
                  (map alert_type (filter is_blocking (ps_alerts ex_blocked_page))) =
                ''Blocked by captcha, 2fa''"
    by (simp add: ex_blocked_page_def is_blocking_def)
  note inst = blocking_alert_pauses_run[of ex_env_blocked "[]" "''A''" ex_claimed ex_db 1 st,
      unfolded ex_plan_blocked, OF search reach i u g ps a, unfolded reason]
  from inst have c1: "fst (executeTask ex_env_blocked ''A'' ex_claimed ex_db) = Completed"
    by (elim conjE)
  from inst have t: "db_tasks (snd (executeTask ex_env_blocked ''A'' ex_claimed ex_db)) =
       updateStatus (task_id ex_claimed) Paused (Some ''Blocked by captcha, 2fa'')
         (re_toISO ex_env_blocked (re_statusMs ex_env_blocked)) (db_tasks ex_db)"
    by (elim conjE)
  from inst have r: "db_task_runs (snd (executeTask ex_env_blocked ''A'' ex_claimed ex_db)) =
       saveTaskRun ((new_run ex_env_blocked ''A'' ex_claimed)
                      \<lparr>run_steps := ls_steps st,
                       run_finishedAt := Some (re_toISO ex_env_blocked (re_finishedMs ex_env_blocked))\<rparr>)
         (db_task_runs ex_db)"
    by (elim conjE)
  from inst have l: "length (ls_steps st) = 1"
    by (elim conjE)
  have c2: "map status (db_tasks (snd (executeTask ex_env_blocked ''A'' ex_claimed ex_db))) = [Queued, Paused]"
    unfolding t by (rule ex_updateStatus_paused)
  have c3: "map status_reason (db_tasks (snd (executeTask ex_env_blocked ''A'' ex_claimed ex_db))) =
     [None, Some ''Blocked by captcha, 2fa'']"
    unfolding t by (rule ex_updateStatus_paused)
  have c4: "map (\<lambda>r. length (run_steps r)) (db_task_runs (snd (executeTask ex_env_blocked ''A'' ex_claimed ex_db))) = [1]"
    unfolding r by (simp add: saveTaskRun_def ex_db_def l)
  have ne: "state_at_step ex_env_blocked ''A'' ex_claimed ex_plan
     (loop_start ex_env_blocked ''A'' ex_claimed ex_db) 1 \<noteq> None"
    unfolding reach by simp
  from search ne i u c1 c2 c3 c4 show ?thesis by (intro conjI)
qed




subsection \<open>A response without an array; a memory collaborator that throws\<close>

lemma bracket_match_no_open:
  "CHR ''['' \<notin> set s \<Longrightarrow> bracket_match s = None"
proof -
  assume "CHR ''['' \<notin> set s"
  then have h: "dropWhile (\<lambda>c. c \<noteq> CHR ''['') s = []" by (auto simp: dropWhile_eq_Nil_conv)
  show ?thesis unfolding bracket_match_def h by simp
qed

lemma ex_no_plan_text: "bracket_match ''I cannot produce a plan.'' = None"
  by (simp add: bracket_match_def)

text \<open>
  C3 at a response without brackets: the plan is empty, not the goal alone; the run then
  executes no step and the task is set to \<open>done\<close> with an empty run log.
\<close>

theorem plan_without_array_is_empty:
  "make_plan (env\<lparr>re_plan := Inr ''I cannot produce a plan.''\<rparr>) goal_text = [] \<and>
   fst (executeTask ex_env_no_plan ''A'' ex_claimed ex_db) = Completed \<and>
   map status (db_tasks (snd (executeTask ex_env_no_plan ''A'' ex_claimed ex_db))) = [Queued, Done] \<and>
   map run_steps (db_task_runs (snd (executeTask ex_env_no_plan ''A'' ex_claimed ex_db))) = [[]]"
proof -
  have p: "\<And>e g. make_plan (e\<lparr>re_plan := Inr ''I cannot produce a plan.''\<rparr>) g = []"
    by (simp add: make_plan_def ex_no_plan_text)
  have p': "make_plan ex_env_no_plan (goal (payload ex_claimed)) = []"
    unfolding ex_env_no_plan_def by (rule p)
  have l: "step_loop ex_env_no_plan ''A'' ex_claimed [] 0 (loop_start ex_env_no_plan ''A'' ex_claimed ex_db) =
           loop_start ex_env_no_plan ''A'' ex_claimed ex_db"
    by (subst step_loop.simps) simp
  have s: "re_search ex_env_no_plan = Inr []" by (simp add: ex_env_no_plan_def ex_env_def)
  have e: "executeTask ex_env_no_plan ''A'' ex_claimed ex_db =
        finish_task ex_env_no_plan ''A'' ex_claimed (new_run ex_env_no_plan ''A'' ex_claimed)
          (loop_start ex_env_no_plan ''A'' ex_claimed ex_db)"
    by (simp add: executeTask_def s p' l)
  have f: "fst (executeTask ex_env_no_plan ''A'' ex_claimed ex_db) = Completed"
    unfolding e
    by (simp add: finish_task_def loop_start_def Let_def truthy_def ex_env_no_plan_def ex_env_def
        ex_claimed_def ex_task_def)
  have t: "map status (db_tasks (snd (executeTask ex_env_no_plan ''A'' ex_claimed ex_db))) = [Queued, Done]"
    unfolding e
    by (simp add: finish_task_def loop_start_def start_db_def Let_def truthy_def ex_env_no_plan_def
        ex_env_def ex_claimed_def ex_task_def ex_db_def updateStatus_def)
  have r: "map run_steps (db_task_runs (snd (executeTask ex_env_no_plan ''A'' ex_claimed ex_db))) = [[]]"
    unfolding e
    by (simp add: finish_task_def loop_start_def start_db_def Let_def truthy_def ex_env_no_plan_def
        ex_env_def ex_claimed_def ex_task_def ex_db_def saveTaskRun_def new_run_def)
  from p f t r show ?thesis by (intro conjI)
qed

lemma ex_store_fails_loop:
  "\<exists>st. step_loop ex_env_store_fails ''A'' ex_claimed ex_plan 0
           (loop_start ex_env_store_fails ''A'' ex_claimed ex_db) = st \<and>
        ls_pauseReason st = None \<and> \<not> ls_taskFailed st \<and> length (ls_steps st) = 3 \<and>
        db_tasks (ls_db st) = db_tasks ex_db \<and> db_task_runs (ls_db st) = [] \<and>
        map_option as_currentTaskId (db_agent_state (ls_db st) ''A'') = Some (Some ''t3'')"
  by (simp add: step_loop.simps ex_env_store_fails_def ex_runner_defs runner_defs)

text \<open>
  C4 at a memory search that throws: \<open>executeTask\<close> is rejected with the error after its
  first \<open>saveAgentState\<close>; the task table is as before (the task stays \<open>running\<close>), no run
  is saved and the agent's current task is still set. At a memory store that throws, after
  three successful steps: the task is already \<open>done\<close>, and again no run is saved and the
  current task is still set.
\<close>

theorem memory_failure_aborts_run:
  "executeTask (env\<lparr>re_search := Inl msg\<rparr>) agentId task db =
     (Rejected msg, start_db env agentId task db) \<and>
   db_tasks (start_db env agentId task db) = db_tasks db \<and>
   db_task_runs (start_db env agentId task db) = db_task_runs db \<and>
   map_option as_currentTaskId (db_agent_state (start_db env agentId task db) agentId) =
     Some (Some (task_id task)) \<and>
   fst (executeTask ex_env_store_fails ''A'' ex_claimed ex_db) = Rejected ''database is locked'' \<and>
   map status (db_tasks (snd (executeTask ex_env_store_fails ''A'' ex_claimed ex_db))) = [Queued, Done] \<and>
   db_task_runs (snd (executeTask ex_env_store_fails ''A'' ex_claimed ex_db)) = [] \<and>
   map_option as_currentTaskId
     (db_agent_state (snd (executeTask ex_env_store_fails ''A'' ex_claimed ex_db)) ''A'') =
     Some (Some ''t3'')"
proof -
  have a: "executeTask (env\<lparr>re_search := Inl msg\<rparr>) agentId task db =
     (Rejected msg, start_db env agentId task db)"
    by (simp add: executeTask_def start_db_def)
  have b: "db_tasks (start_db env agentId task db) = db_tasks db"
    "db_task_runs (start_db env agentId task db) = db_task_runs db"
    "map_option as_currentTaskId (db_agent_state (start_db env agentId task db) agentId) =
     Some (Some (task_id task))"
    by (simp_all add: start_db_def saveAgentState_def)
  from ex_store_fails_loop obtain st where
    l: "step_loop ex_env_store_fails ''A'' ex_claimed ex_plan 0
           (loop_start ex_env_store_fails ''A'' ex_claimed ex_db) = st"
    and st: "ls_pauseReason st = None" "\<not> ls_taskFailed st"
        "db_tasks (ls_db st) = db_tasks ex_db" "db_task_runs (ls_db st) = []"
        "map_option as_currentTaskId (db_agent_state (ls_db st) ''A'') = Some (Some ''t3'')"
    by (elim exE conjE)
  have p: "make_plan ex_env_store_fails (goal (payload ex_claimed)) = ex_plan"
    by (rule ex_make_plan) (simp_all add: ex_env_store_fails_def ex_env_def)
  have s: "re_search ex_env_store_fails = Inr []" by (simp add: ex_env_store_fails_def ex_env_def)
  have e: "executeTask ex_env_store_fails ''A'' ex_claimed ex_db =
        finish_task ex_env_store_fails ''A'' ex_claimed (new_run ex_env_store_fails ''A'' ex_claimed) st"
    by (simp add: executeTask_def s p l)
  have f: "finish_task ex_env_store_fails ''A'' ex_claimed (new_run ex_env_store_fails ''A'' ex_claimed) st =
     (Rejected ''database is locked'',
      (ls_db st)\<lparr>db_tasks := updateStatus ''t3'' Done None
                    (re_toISO ex_env_store_fails (re_statusMs ex_env_store_fails)) (db_tasks ex_db)\<rparr>)"
    using st(1,2)
    by (simp add: finish_task_def Let_def truthy_def st(3) ex_claimed_def ex_task_def)
       (simp add: ex_env_store_fails_def ex_env_def st(3))
  have c1: "fst (executeTask ex_env_store_fails ''A'' ex_claimed ex_db) = Rejected ''database is locked''"
    by (simp add: e f)
  have c2: "map status (db_tasks (snd (executeTask ex_env_store_fails ''A'' ex_claimed ex_db))) = [Queued, Done]"
    by (simp add: e f) (simp add: updateStatus_def ex_db_def ex_claimed_def ex_task_def)
  have c3: "db_task_runs (snd (executeTask ex_env_store_fails ''A'' ex_claimed ex_db)) = []"
    by (simp add: e f st(4))
  have c4: "map_option as_currentTaskId
     (db_agent_state (snd (executeTask ex_env_store_fails ''A'' ex_claimed ex_db)) ''A'') =
     Some (Some ''t3'')"
    by (simp add: e f st(5))
  from a b c1 c2 c3 c4 show ?thesis by (intro conjI)
qed

end
